theory Spec2Isabelle
  imports Main "HOL-Library.AList" "HOL-Library.Sublist" "HOL-Library.Monad_Syntax"
begin

section \<open>PDF metadata viewer: the functions of \<open>pdf_meta.py\<close>\<close>

text \<open>
  The program is glue over three libraries: \<open>datetime\<close>/\<open>pytz\<close> (dates and time zones),
  \<open>pikepdf\<close> (opening, reading and saving PDF files) and \<open>streamlit\<close> (the page). The
  functions of the program are embedded as they are written; each library operation they call is
  a small definition of its documented behaviour, and the two things that are data of a library
  rather than code (the zone table of \<open>pytz\<close>, the parser and serialiser of \<open>pikepdf\<close>) are
  parameters. Python strings are \<open>string\<close> (characters with code points below 256), Python
  integers are \<open>int\<close>, Python dictionaries are association lists with \<open>AList.update\<close> (insertion
  order, one entry per key).
\<close>

subsection \<open>Python string operations used by \<open>parse_pdf_date\<close>\<close>

text \<open>\<open>str.isspace\<close> on one character: the white space of Unicode below code point 256.\<close>

definition py_isspace :: "char \<Rightarrow> bool" where
  "py_isspace c = ((of_char c :: nat) \<in> {9, 10, 11, 12, 13, 28, 29, 30, 31, 32, 133, 160})"

text \<open>\<open>s.strip()\<close>: white space removed at both ends.\<close>

definition strip :: "string \<Rightarrow> string" where
  "strip s = rev (dropWhile py_isspace (rev (dropWhile py_isspace s)))"

text \<open>\<open>s.startswith(p)\<close>.\<close>

definition startswith :: "string \<Rightarrow> string \<Rightarrow> bool" where
  "startswith s p = (take (length p) s = p)"

text \<open>\<open>s[i:j]\<close> for \<open>0 \<le> i \<le> j\<close>: a slice never raises, it is cut at the end of \<open>s\<close>.\<close>

definition slice :: "string \<Rightarrow> nat \<Rightarrow> nat \<Rightarrow> string" where
  "slice s i j = take (j - i) (drop i s)"

definition is_digit :: "char \<Rightarrow> bool" where
  "is_digit c = (48 \<le> (of_char c :: nat) \<and> (of_char c :: nat) \<le> 57)"

definition digit_value :: "char \<Rightarrow> nat" where
  "digit_value c = of_char c - 48"

text \<open>
  The digits of an integer literal, read left to right. A single underscore is allowed between
  two digits (\<open>int("1_0") = 10\<close>), nowhere else.
\<close>

fun digits_value :: "string \<Rightarrow> nat \<Rightarrow> nat option" where
  "digits_value [] acc = Some acc"
| "digits_value (c # cs) acc =
     (if is_digit c then digits_value cs (10 * acc + digit_value c)
      else if c = CHR ''_'' \<and> cs \<noteq> [] \<and> is_digit (hd cs) then digits_value cs acc
      else None)"

text \<open>
  The white space that \<open>int\<close> ignores around a literal: the white space of ASCII and, from code
  point 128 on, the white space of Unicode. The separators 28 to 31, which \<open>str.strip\<close> removes,
  are no white space for \<open>int\<close>.
\<close>

definition int_isspace :: "char \<Rightarrow> bool" where
  "int_isspace c = ((of_char c :: nat) \<in> {9, 10, 11, 12, 13, 32, 133, 160})"

text \<open>
  \<open>int(s)\<close> in base ten: white space around the literal is ignored, one sign may come first, at
  least one digit must follow. \<open>None\<close> stands for the \<open>ValueError\<close> that \<open>int\<close> raises.
\<close>

definition py_int :: "string \<Rightarrow> int option" where
  "py_int s =
     (let t = rev (dropWhile int_isspace (rev (dropWhile int_isspace s)));
          neg = (t \<noteq> [] \<and> hd t = CHR ''-'');
          u = (if t \<noteq> [] \<and> (hd t = CHR ''-'' \<or> hd t = CHR ''+'') then tl t else t)
      in if u \<noteq> [] \<and> is_digit (hd u)
         then map_option (\<lambda>n. if neg then - int n else int n) (digits_value u 0)
         else None)"

subsection \<open>The \<open>datetime\<close> operations used by \<open>parse_pdf_date\<close>\<close>

record datetime =
  year :: nat
  month :: nat
  day :: nat
  hour :: nat
  minute :: nat
  second :: nat

definition is_leap :: "nat \<Rightarrow> bool" where
  "is_leap y = (y mod 4 = 0 \<and> (y mod 100 \<noteq> 0 \<or> y mod 400 = 0))"

definition days_in_month :: "nat \<Rightarrow> nat \<Rightarrow> nat" where
  "days_in_month y m =
     (if m = 2 then (if is_leap y then 29 else 28)
      else if m = 4 \<or> m = 6 \<or> m = 9 \<or> m = 11 then 30 else 31)"

text \<open>
  \<open>datetime(year, month, day, hour, minute, second)\<close>: the constructor checks every field and
  raises \<open>ValueError\<close> (here \<open>None\<close>) when one is out of range; years run from 1 to 9999.
\<close>

definition datetime_new :: "int \<Rightarrow> int \<Rightarrow> int \<Rightarrow> int \<Rightarrow> int \<Rightarrow> int \<Rightarrow> datetime option" where
  "datetime_new y m d h mi s =
     (if 1 \<le> y \<and> y \<le> 9999 \<and> 1 \<le> m \<and> m \<le> 12
         \<and> 1 \<le> d \<and> d \<le> int (days_in_month (nat y) (nat m))
         \<and> 0 \<le> h \<and> h \<le> 23 \<and> 0 \<le> mi \<and> mi \<le> 59 \<and> 0 \<le> s \<and> s \<le> 59
      then Some \<lparr>year = nat y, month = nat m, day = nat d,
                 hour = nat h, minute = nat mi, second = nat s\<rparr>
      else None)"

text \<open>The day before and the day after a date; \<open>None\<close> outside the years 1 to 9999.\<close>

definition prev_day :: "nat \<times> nat \<times> nat \<Rightarrow> (nat \<times> nat \<times> nat) option" where
  "prev_day ymd =
     (case ymd of (y, m, d) \<Rightarrow>
        if 1 < d then Some (y, m, d - 1)
        else if 1 < m then Some (y, m - 1, days_in_month y (m - 1))
        else if 1 < y then Some (y - 1, 12, 31)
        else None)"

definition next_day :: "nat \<times> nat \<times> nat \<Rightarrow> (nat \<times> nat \<times> nat) option" where
  "next_day ymd =
     (case ymd of (y, m, d) \<Rightarrow>
        if d < days_in_month y m then Some (y, m, d + 1)
        else if m < 12 then Some (y, m + 1, 1)
        else if y < 9999 then Some (y + 1, 1, 1)
        else None)"

fun iterate_day :: "nat \<Rightarrow> (nat \<times> nat \<times> nat \<Rightarrow> (nat \<times> nat \<times> nat) option)
    \<Rightarrow> nat \<times> nat \<times> nat \<Rightarrow> (nat \<times> nat \<times> nat) option" where
  "iterate_day 0 f ymd = Some ymd"
| "iterate_day (Suc n) f ymd = (case f ymd of None \<Rightarrow> None | Some ymd' \<Rightarrow> iterate_day n f ymd')"

text \<open>
  A date moved by a number of days, as \<open>datetime + timedelta\<close> does it; \<open>None\<close> stands for the
  \<open>OverflowError\<close> of a result outside the years 1 to 9999.
\<close>

definition add_days :: "int \<Rightarrow> nat \<times> nat \<times> nat \<Rightarrow> (nat \<times> nat \<times> nat) option" where
  "add_days n ymd =
     (if 0 \<le> n then iterate_day (nat n) next_day ymd else iterate_day (nat (- n)) prev_day ymd)"

text \<open>
  A time zone, as far as the program uses one: for a moment given in UTC, the offset from UTC
  in seconds and the abbreviation that \<open>%Z\<close> prints. The zone table itself is data of \<open>pytz\<close>,
  so \<open>parse_pdf_date\<close> takes the zone as a parameter.
\<close>

type_synonym tzinfo = "datetime \<Rightarrow> int \<times> string"

text \<open>
  \<open>pytz.utc.localize(dt).astimezone(tz)\<close>: the wall clock of zone \<open>tz\<close> at the UTC moment \<open>dt\<close>,
  with the zone's abbreviation.
\<close>

definition astimezone :: "tzinfo \<Rightarrow> datetime \<Rightarrow> (datetime \<times> string) option" where
  "astimezone tz dt =
     (let total = int (hour dt * 3600 + minute dt * 60 + second dt) + fst (tz dt);
          secs = nat (total mod 86400)
      in case add_days (total div 86400) (year dt, month dt, day dt) of
           None \<Rightarrow> None
         | Some (y, m, d) \<Rightarrow>
             Some (\<lparr>year = y, month = m, day = d, hour = secs div 3600,
                    minute = secs mod 3600 div 60, second = secs mod 60\<rparr>, snd (tz dt)))"

subsection \<open>\<open>strftime\<close>\<close>

definition digit_char :: "nat \<Rightarrow> char" where
  "digit_char n = char_of (48 + n mod 10)"

definition pad2 :: "nat \<Rightarrow> string" where
  "pad2 n = [digit_char (n div 10), digit_char n]"


text \<open>\<open>%B\<close>: the month's name in the C locale.\<close>

definition month_name :: "nat \<Rightarrow> string" where
  "month_name m =
     [''January'', ''February'', ''March'', ''April'', ''May'', ''June'', ''July'', ''August'',
      ''September'', ''October'', ''November'', ''December''] ! (m - 1)"

text \<open>A number in decimal, without leading zeros: \<open>str(n)\<close>, and what \<open>%Y\<close> prints for a year.\<close>

fun show_nat :: "nat \<Rightarrow> string" where
  "show_nat n = (if n < 10 then [digit_char n] else show_nat (n div 10) @ [digit_char n])"

declare show_nat.simps [simp del]

text \<open>
  \<open>%B %d, %Y\<close>: the date part of the display string. The day has two digits; the year is
  printed as the number it is, so a year below 1000 has fewer than four digits (\<open>999\<close>).
\<close>

definition long_date :: "nat \<Rightarrow> nat \<Rightarrow> nat \<Rightarrow> string" where
  "long_date y m d = month_name m @ '' '' @ pad2 d @ '', '' @ show_nat y"

text \<open>
  \<open>dt.strftime('%B %d, %Y at %I:%M:%S %p %Z')\<close>, with \<open>%I\<close> the hour on the twelve-hour clock
  in two digits and \<open>%p\<close> AM or PM.
\<close>

definition strftime :: "datetime \<Rightarrow> string \<Rightarrow> string" where
  "strftime dt tzname =
     long_date (year dt) (month dt) (day dt) @ '' at ''
       @ pad2 (if hour dt mod 12 = 0 then 12 else hour dt mod 12) @ '':''
       @ pad2 (minute dt) @ '':'' @ pad2 (second dt) @ '' ''
       @ (if hour dt < 12 then ''AM'' else ''PM'') @ '' '' @ tzname"

subsection \<open>\<open>parse_pdf_date\<close>\<close>

text \<open>
  The \<open>try\<close> block of \<open>parse_pdf_date\<close> after the prefix has been cut: \<open>None\<close> when any step
  raises (\<open>int\<close>, the \<open>datetime\<close> constructor, the conversion to the zone).
\<close>

definition parse_fields :: "tzinfo \<Rightarrow> string \<Rightarrow> string option" where
  "parse_fields tz date_str = do {
     year' \<leftarrow> py_int (slice date_str 0 4);
     month' \<leftarrow> py_int (slice date_str 4 6);
     day' \<leftarrow> py_int (slice date_str 6 8);
     hour' \<leftarrow> (if 10 \<le> length date_str then py_int (slice date_str 8 10) else Some 0);
     minute' \<leftarrow> (if 12 \<le> length date_str then py_int (slice date_str 10 12) else Some 0);
     second' \<leftarrow> (if 14 \<le> length date_str then py_int (slice date_str 12 14) else Some 0);
     dt \<leftarrow> datetime_new year' month' day' hour' minute' second';
     (dt_est, tzname) \<leftarrow> astimezone tz dt;
     Some (strftime dt_est tzname)
   }"

text \<open>
  \<open>parse_pdf_date(date_str)\<close> for a string argument. The name \<open>date_str\<close> is assigned twice
  before the fields are read (stripped, then cut after \<open>D:\<close>), and the \<open>except\<close> branch returns
  \<open>str(date_str)\<close>: the value the name has at that point.
\<close>

definition parse_pdf_date :: "tzinfo \<Rightarrow> string \<Rightarrow> string" where
  "parse_pdf_date tz date_str0 =
     (let date_str1 = strip date_str0;
          date_str = (if startswith date_str1 ''D:'' then drop 2 date_str1 else date_str1)
      in case parse_fields tz date_str of
           Some shown \<Rightarrow> shown
         | None \<Rightarrow> date_str)"


subsection \<open>The zone \<open>US/Eastern\<close>\<close>







subsection \<open>Errors and page events\<close>

text \<open>
  An exception raised by a library call. The handlers of the program tell two classes apart,
  \<open>NotImplementedError\<close> and every other subclass of \<open>Exception\<close>; the argument is the text that
  \<open>str(e)\<close> gives. Signals outside the class \<open>Exception\<close> (\<open>KeyboardInterrupt\<close>, \<open>SystemExit\<close>)
  are no failures of an operation and are not modelled.
\<close>

datatype py_error = NotImplementedError string | Exception string

fun error_text :: "py_error \<Rightarrow> string" where
  "error_text (NotImplementedError msg) = msg"
| "error_text (Exception msg) = msg"

text \<open>
  What a function shows on the page: the calls of \<open>st.error\<close>, \<open>st.warning\<close>, \<open>st.success\<close> and
  \<open>st.spinner\<close>, in order, with their message (the pictographs of the messages left out). Calls
  that only lay out the page (\<open>st.markdown\<close>, \<open>st.metric\<close>) and the log file are not modelled.
\<close>

datatype st_event = st_error string | st_warning string | st_success string | st_spinner string

text \<open>A sequence of fallible steps: the first exception ends it.\<close>

definition and_then :: "py_error + 'a \<Rightarrow> ('a \<Rightarrow> py_error + 'c) \<Rightarrow> py_error + 'c" where
  "and_then r f = (case r of Inl e \<Rightarrow> Inl e | Inr x \<Rightarrow> f x)"

subsection \<open>The \<open>pikepdf\<close> operations used by the program\<close>

text \<open>
  A value of the document-information dictionary: a PDF string, or an object of another kind,
  given by what \<open>str\<close> makes of it (a text, or an exception).
\<close>

datatype pdf_object = String string | Other "py_error + string"

fun str_obj :: "pdf_object \<Rightarrow> py_error + string" where
  "str_obj (String s) = Inr s"
| "str_obj (Other r) = r"

type_synonym dictionary = "(string \<times> pdf_object) list"

text \<open>
  The \<open>/Info\<close> entry of the trailer: missing, a dictionary (its keys are names, written with
  their leading \<open>/\<close>), or something the library fails on.
\<close>

datatype info = Absent | Present dictionary | Damaged py_error

record pdf =
  is_encrypted :: bool
  trailer_info :: info

text \<open>
  \<open>pikepdf.open\<close> and \<open>Pdf.save\<close> read and write the file format; the program never looks at
  the bytes itself, so the two are parameters and \<open>'b\<close> is the type of a file's content.
\<close>

record 'b pikepdf =
  pikepdf_open :: "'b \<Rightarrow> py_error + pdf"
  pdf_save :: "pdf \<Rightarrow> py_error + 'b"

text \<open>
  \<open>pdf.docinfo\<close>: the dictionary, and the document after the access. A missing dictionary is
  created empty by the access.
\<close>

definition docinfo :: "pdf \<Rightarrow> py_error + (dictionary \<times> pdf)" where
  "docinfo p =
     (case trailer_info p of
        Absent \<Rightarrow> Inr ([], p\<lparr>trailer_info := Present []\<rparr>)
      | Present d \<Rightarrow> Inr (d, p)
      | Damaged e \<Rightarrow> Inl e)"

text \<open>
  \<open>pdf.docinfo[k] = v\<close> for a Python string \<open>v\<close>: the value is stored as a PDF string. A key
  that does not begin with \<open>/\<close> is refused, and so is the key \<open>/\<close> alone (by some versions of
  the library; the text of the error differs between versions). A new key is put last here,
  where the library keeps the keys sorted: the properties below look keys up and do not depend
  on their order.
\<close>

definition docinfo_setitem :: "string \<Rightarrow> string \<Rightarrow> pdf \<Rightarrow> py_error + pdf" where
  "docinfo_setitem k v p =
     and_then (docinfo p) (\<lambda>(d, p').
       if k = ''/'' \<or> \<not> startswith k ''/'' then Inl (Exception ''KeyError'')
       else Inr (p'\<lparr>trailer_info := Present (AList.update k (String v) d)\<rparr>))"

text \<open>The uploaded file of the page: \<open>size\<close> is its length in bytes, \<open>read()\<close> gives its content.\<close>

record 'b uploaded_file =
  file_name :: string
  file_size :: nat
  file_content :: 'b

subsection \<open>\<open>extract_metadata\<close>\<close>

text \<open>
  The loop over the keys of the dictionary: a value that \<open>str\<close> fails on is skipped, the loop
  goes on.
\<close>

fun collect_fields :: "dictionary \<Rightarrow> (string \<times> string) list \<Rightarrow> (string \<times> string) list" where
  "collect_fields [] metadata_dict = metadata_dict"
| "collect_fields ((key, obj) # rest) metadata_dict =
     (case str_obj obj of
        Inl e \<Rightarrow> collect_fields rest metadata_dict
      | Inr s \<Rightarrow> collect_fields rest (AList.update key s metadata_dict))"

text \<open>The body of the outer \<open>try\<close> of \<open>extract_metadata\<close>.\<close>

definition extract_body ::
    "'b pikepdf \<Rightarrow> 'b uploaded_file \<Rightarrow> py_error + (st_event list \<times> (string \<times> string) list option)" where
  "extract_body lib pdf_file =
     and_then (pikepdf_open lib (file_content pdf_file)) (\<lambda>pdf.
       if is_encrypted pdf
       then Inr ([st_error ''The uploaded PDF is encrypted and cannot be processed.''], None)
       else (case docinfo pdf of
               Inr (d, pdf') \<Rightarrow> Inr ([], Some (collect_fields d []))
             | Inl meta_error \<Rightarrow> Inr ([], Some [])))"

text \<open>
  \<open>extract_metadata(pdf_file)\<close>: the events shown and the value returned (\<open>None\<close> or the
  dictionary), or \<open>Inl\<close> for an exception that reaches the caller.
\<close>

definition extract_metadata ::
    "'b pikepdf \<Rightarrow> 'b uploaded_file \<Rightarrow> py_error + (st_event list \<times> (string \<times> string) list option)" where
  "extract_metadata lib pdf_file =
     (case extract_body lib pdf_file of
        Inr r \<Rightarrow> Inr r
      | Inl (NotImplementedError nie) \<Rightarrow>
          Inr ([st_error ''PDF feature not supported or file is invalid.''], None)
      | Inl (Exception e) \<Rightarrow>
          Inr ([st_error ''An error occurred while extracting metadata.''], None))"

subsection \<open>\<open>update_pdf_metadata\<close>\<close>

text \<open>
  The loop that fills \<open>existing_metadata\<close>: the \<open>try\<close> is around the whole loop, so the first
  value that \<open>str\<close> fails on ends it and the entries read so far are kept.
\<close>

fun read_existing :: "dictionary \<Rightarrow> (string \<times> string) list \<Rightarrow> (string \<times> string) list" where
  "read_existing [] existing_metadata = existing_metadata"
| "read_existing ((key, obj) # rest) existing_metadata =
     (case str_obj obj of
        Inl e \<Rightarrow> existing_metadata
      | Inr s \<Rightarrow> read_existing rest (AList.update key s existing_metadata))"

text \<open>\<open>dict_key = key if key.startswith('/') else f'/{key}'\<close>.\<close>

definition dict_key :: "string \<Rightarrow> string" where
  "dict_key key = (if startswith key ''/'' then key else ''/'' @ key)"

text \<open>The loop over \<open>updated_metadata.items()\<close>: an empty value is skipped.\<close>

fun write_updates :: "(string \<times> string) list \<Rightarrow> pdf \<Rightarrow> py_error + pdf" where
  "write_updates [] p = Inr p"
| "write_updates ((key, v) # rest) p =
     (if v \<noteq> [] then and_then (docinfo_setitem (dict_key key) v p) (write_updates rest)
      else write_updates rest p)"

text \<open>The modification date is written again when the request names it under neither key.\<close>

definition preserve_moddate ::
    "(string \<times> string) list \<Rightarrow> (string \<times> string) list \<Rightarrow> pdf \<Rightarrow> py_error + pdf" where
  "preserve_moddate updated_metadata existing_metadata p =
     (if ''/ModDate'' \<notin> fst ` set updated_metadata \<and> ''ModDate'' \<notin> fst ` set updated_metadata
      then (case map_of existing_metadata ''/ModDate'' of
              Some v \<Rightarrow> if v \<noteq> [] then docinfo_setitem ''/ModDate'' v p else Inr p
            | None \<Rightarrow> Inr p)
      else Inr p)"

text \<open>The body of the \<open>try\<close> of \<open>update_pdf_metadata\<close>.\<close>

definition update_body ::
    "'b pikepdf \<Rightarrow> 'b uploaded_file \<Rightarrow> (string \<times> string) list \<Rightarrow> py_error + 'b" where
  "update_body lib pdf_file updated_metadata =
     and_then (pikepdf_open lib (file_content pdf_file)) (\<lambda>pdf.
       let (existing_metadata, pdf1) =
             (case docinfo pdf of
                Inr (d, pdf') \<Rightarrow> (read_existing d [], pdf')
              | Inl e \<Rightarrow> ([], pdf))
       in and_then (write_updates updated_metadata pdf1) (\<lambda>pdf2.
          and_then (preserve_moddate updated_metadata existing_metadata pdf2) (\<lambda>pdf3.
          pdf_save lib pdf3)))"

text \<open>
  \<open>update_pdf_metadata(pdf_file, updated_metadata)\<close>: the events shown and the value returned
  (\<open>None\<close> or the saved bytes), or \<open>Inl\<close> for an exception that reaches the caller.
\<close>

definition update_pdf_metadata ::
    "'b pikepdf \<Rightarrow> 'b uploaded_file \<Rightarrow> (string \<times> string) list
      \<Rightarrow> py_error + (st_event list \<times> 'b option)" where
  "update_pdf_metadata lib pdf_file updated_metadata =
     (case update_body lib pdf_file updated_metadata of
        Inr output_bytes \<Rightarrow> Inr ([], Some output_bytes)
      | Inl e \<Rightarrow> Inr ([st_error (''Failed to update metadata: '' @ error_text e)], None))"

subsection \<open>\<open>main\<close>: from the upload to the extraction\<close>

text \<open>
  The part of \<open>main\<close> between the upload control and the list of check boxes: the size check, the
  call of \<open>extract_metadata\<close> under its spinner, and the message about the number of fields. The
  widgets that follow depend on what the user clicks and are not modelled.
\<close>

definition main :: "'b pikepdf \<Rightarrow> 'b uploaded_file option \<Rightarrow> py_error + st_event list" where
  "main lib uploaded_file =
     (case uploaded_file of
        None \<Rightarrow> Inr []
      | Some f \<Rightarrow>
          if file_size f > 10 * 1024 * 1024
          then Inr [st_error ''File is too large. Please upload a PDF under 10MB.'']
          else and_then (extract_metadata lib f) (\<lambda>(events, metadata).
                 Inr (st_spinner ''Extracting metadata...'' # events @
                   (case metadata of
                      None \<Rightarrow> []
                    | Some m \<Rightarrow>
                        if m = [] then [st_warning ''No metadata found in this PDF.'']
                        else [st_success (''Found '' @ show_nat (length m)
                                @ '' metadata fields!'')]))))"

subsection \<open>What the library is assumed to do on save\<close>

text \<open>
  A saved file, opened again, is a document without encryption whose \<open>/Info\<close> entry is the one
  that was saved.
\<close>

definition faithful :: "'b pikepdf \<Rightarrow> bool" where
  "faithful lib =
     (\<forall>p b. pdf_save lib p = Inr b \<longrightarrow>
        pikepdf_open lib b = Inr \<lparr>is_encrypted = False, trailer_info = trailer_info p\<rparr>)"

text \<open>A dictionary has one entry for a key.\<close>

definition one_entry_per_key :: "pdf \<Rightarrow> bool" where
  "one_entry_per_key p =
     (case trailer_info p of Present d \<Rightarrow> distinct (map fst d) | Absent \<Rightarrow> True | Damaged e \<Rightarrow> True)"

text \<open>
  The smallest instance, for the examples: a file's content is the document itself, and saving
  drops the encryption.
\<close>

definition plain_codec :: "pdf pikepdf" where
  "plain_codec =
     \<lparr>pikepdf_open = Inr,
      pdf_save = (\<lambda>p. Inr \<lparr>is_encrypted = False, trailer_info = trailer_info p\<rparr>)\<rparr>"

definition upload :: "'b \<Rightarrow> 'b uploaded_file" where
  "upload b = \<lparr>file_name = ''sample.pdf'', file_size = 1024, file_content = b\<rparr>"

section \<open>Properties\<close>

subsection \<open>Digits and integer literals\<close>







lemma trim_id:
  assumes "s \<noteq> []" and "\<not> sp (hd s)" and "\<not> sp (last s)"
  shows "rev (dropWhile sp (rev (dropWhile sp s))) = s"
proof -
  from assms have head_kept: "dropWhile sp s = s" by (cases s) simp_all
  from assms have "rev s \<noteq> []" "\<not> sp (hd (rev s))" by (simp_all add: hd_rev)
  then have tail_kept: "dropWhile sp (rev s) = rev s" by (cases "rev s") simp_all
  show ?thesis by (simp add: head_kept tail_kept)
qed

lemma strip_id:
  assumes "s \<noteq> []" and "\<not> py_isspace (hd s)" and "\<not> py_isspace (last s)"
  shows "strip s = s"
  unfolding strip_def using assms by (rule trim_id)

subsection \<open>The date normaliser on a string it cannot parse\<close>

lemma strip_D_2026: "strip ''D:2026'' = ''D:2026''"
  by (rule strip_id) (simp_all add: py_isspace_def)

lemma py_int_empty: "py_int [] = None"
  by (simp add: py_int_def)

text \<open>
  Claim C2 says that a malformed string comes back unchanged. On \<open>D:2026\<close>, the claim's own
  example, the month cannot be read, and the function returns the string without its \<open>D:\<close>
  prefix: the \<open>except\<close> branch returns the variable that was overwritten with the cut string,
  where the comment beside it says the original string is returned.
\<close>

theorem parse_pdf_date_cuts_prefix_on_failure:
  "parse_pdf_date tz ''D:2026'' = ''2026'' \<and> parse_pdf_date tz ''D:2026'' \<noteq> ''D:2026''"
proof -
  have "parse_fields tz ''2026'' = None"
    by (simp add: parse_fields_def slice_def py_int_empty)
  then show ?thesis
    by (simp add: parse_pdf_date_def strip_D_2026 startswith_def)
qed

subsection \<open>Extraction\<close>

lemma faithful_plain_codec: "faithful plain_codec"
  by (simp add: faithful_def plain_codec_def)

text \<open>
  Claim C5: on a document that the library reports as encrypted, \<open>extract_metadata\<close> shows the
  message about encryption and returns \<open>None\<close>: no dictionary, and no field of the document in
  what it shows. It calls no operation of the library after \<open>pikepdf.open\<close>.
\<close>

theorem extract_metadata_encrypted:
  assumes "pikepdf_open lib (file_content pdf_file) = Inr p" and "is_encrypted p"
  shows "extract_metadata lib pdf_file =
           Inr ([st_error ''The uploaded PDF is encrypted and cannot be processed.''], None)"
  using assms by (simp add: extract_metadata_def extract_body_def and_then_def)

theorem extract_metadata_encrypted_witness:
  "extract_metadata plain_codec
     (upload \<lparr>is_encrypted = True, trailer_info = Present [(''/Title'', String ''Secret'')]\<rparr>) =
   Inr ([st_error ''The uploaded PDF is encrypted and cannot be processed.''], None)"
  using extract_metadata_encrypted [of plain_codec
      "upload \<lparr>is_encrypted = True, trailer_info = Present [(''/Title'', String ''Secret'')]\<rparr>"
      "\<lparr>is_encrypted = True, trailer_info = Present [(''/Title'', String ''Secret'')]\<rparr>"]
  by (simp add: plain_codec_def upload_def)

text \<open>
  A file the library cannot open (a file that needs a password is one) ends the same way, under
  one of the two other messages.
\<close>

lemma extract_metadata_unreadable:
  assumes "pikepdf_open lib (file_content pdf_file) = Inl e"
  shows "\<exists>msg. extract_metadata lib pdf_file = Inr ([st_error msg], None)"
  using assms by (cases e) (simp_all add: extract_metadata_def extract_body_def and_then_def)

text \<open>
  Claim C6: on a readable document without encryption whose document-information dictionary is
  missing or empty, \<open>extract_metadata\<close> returns the empty dictionary and shows no error; that
  result differs from every failure, which returns \<open>None\<close>.
\<close>

theorem extract_metadata_no_docinfo:
  assumes "pikepdf_open lib (file_content pdf_file) = Inr p" and "\<not> is_encrypted p"
    and "trailer_info p = Absent \<or> trailer_info p = Present []"
  shows "extract_metadata lib pdf_file = Inr ([], Some [])
         \<and> (\<forall>events. extract_metadata lib pdf_file \<noteq> Inr (events, None))"
  using assms by (auto simp: extract_metadata_def extract_body_def and_then_def docinfo_def)

theorem extract_metadata_no_docinfo_witness:
  "extract_metadata plain_codec (upload \<lparr>is_encrypted = False, trailer_info = Absent\<rparr>)
     = Inr ([], Some [])
   \<and> (\<forall>events. extract_metadata plain_codec (upload \<lparr>is_encrypted = False, trailer_info = Absent\<rparr>)
        \<noteq> Inr (events, None))"
  using extract_metadata_no_docinfo [of plain_codec
      "upload \<lparr>is_encrypted = False, trailer_info = Absent\<rparr>"
      "\<lparr>is_encrypted = False, trailer_info = Absent\<rparr>"]
  by (simp add: plain_codec_def upload_def)

subsection \<open>The size check of the page\<close>

text \<open>
  Claim C8: an upload of more than 10MB (\<open>10 * 1024 * 1024\<close> bytes, as the program counts) is
  answered by the error message alone. The result is the same for every library and every
  content of the file, and it lacks the spinner under which \<open>extract_metadata\<close> runs: the
  extraction is not reached.
\<close>

theorem main_rejects_large_upload:
  assumes "10 * 1024 * 1024 < file_size f"
  shows "main lib (Some f) = Inr [st_error ''File is too large. Please upload a PDF under 10MB.'']"
  using assms by (simp add: main_def)

theorem main_rejects_large_upload_witness:
  "main plain_codec (Some \<lparr>file_name = ''big.pdf'', file_size = 12 * 1024 * 1024,
       file_content = \<lparr>is_encrypted = False, trailer_info = Present [(''/Title'', String ''T'')]\<rparr>\<rparr>)
   = Inr [st_error ''File is too large. Please upload a PDF under 10MB.'']"
  using main_rejects_large_upload [of
      "\<lparr>file_name = ''big.pdf'', file_size = 12 * 1024 * 1024,
        file_content = \<lparr>is_encrypted = False, trailer_info = Present [(''/Title'', String ''T'')]\<rparr>\<rparr>"
      plain_codec]
  by simp

subsection \<open>No exception leaves the two functions\<close>

text \<open>
  Claim C9: whatever the library does on the file (open it, fail on it, fail on its
  dictionary, fail on saving), \<open>extract_metadata\<close> returns \<open>None\<close> or a dictionary and
  \<open>update_pdf_metadata\<close> returns \<open>None\<close> or the saved bytes; neither ends in an exception.
\<close>

theorem no_exception_reaches_caller:
  "(\<exists>events. extract_metadata lib pdf_file = Inr (events, None)
        \<or> (\<exists>metadata_dict. extract_metadata lib pdf_file = Inr (events, Some metadata_dict)))
   \<and> (\<exists>events. update_pdf_metadata lib pdf_file updated_metadata = Inr (events, None)
        \<or> (\<exists>output_bytes. update_pdf_metadata lib pdf_file updated_metadata
              = Inr (events, Some output_bytes)))"
proof
  show "\<exists>events. extract_metadata lib pdf_file = Inr (events, None)
        \<or> (\<exists>metadata_dict. extract_metadata lib pdf_file = Inr (events, Some metadata_dict))"
  proof (cases "extract_body lib pdf_file")
    case (Inl e)
    then show ?thesis by (cases e) (simp_all add: extract_metadata_def)
  next
    case (Inr r)
    then show ?thesis by (cases r; cases "snd r") (auto simp: extract_metadata_def)
  qed
  show "\<exists>events. update_pdf_metadata lib pdf_file updated_metadata = Inr (events, None)
        \<or> (\<exists>output_bytes. update_pdf_metadata lib pdf_file updated_metadata
              = Inr (events, Some output_bytes))"
    by (cases "update_body lib pdf_file updated_metadata") (simp_all add: update_pdf_metadata_def)
qed

subsection \<open>Updating: what the loops do to the dictionary\<close>

lemma docinfo_Present: "trailer_info p = Present d \<Longrightarrow> docinfo p = Inr (d, p)"
  by (simp add: docinfo_def)

lemma docinfo_setitem_Present:
  assumes "trailer_info p = Present d" and "docinfo_setitem k v p = Inr p'"
  shows "p' = p\<lparr>trailer_info := Present (AList.update k (String v) d)\<rparr>"
  using assms by (simp add: docinfo_setitem_def docinfo_Present and_then_def split: if_splits)

lemma write_updates_Present:
  assumes "write_updates um p = Inr p'" and "trailer_info p = Present d"
  shows "\<exists>d'. p' = p\<lparr>trailer_info := Present d'\<rparr>
           \<and> (\<forall>k. k \<notin> dict_key ` fst ` set um \<longrightarrow> map_of d' k = map_of d k)
           \<and> (distinct (map fst d) \<longrightarrow> distinct (map fst d'))"
  using assms
proof (induction um arbitrary: p d)
  case Nil
  then show ?case by (cases p) auto
next
  case (Cons entry um)
  obtain key v where entry: "entry = (key, v)" by (cases entry)
  show ?case
  proof (cases "v = []")
    case True
    with Cons.prems entry have "write_updates um p = Inr p'" by simp
    from Cons.IH [OF this Cons.prems(2)] show ?thesis by auto
  next
    case False
    with Cons.prems entry obtain p1 where
      p1: "docinfo_setitem (dict_key key) v p = Inr p1" and rest: "write_updates um p1 = Inr p'"
      by (auto simp: and_then_def split: sum.splits)
    let ?d1 = "AList.update (dict_key key) (String v) d"
    from docinfo_setitem_Present [OF Cons.prems(2) p1]
    have p1_eq: "p1 = p\<lparr>trailer_info := Present ?d1\<rparr>" .
    then have "trailer_info p1 = Present ?d1" by simp
    from Cons.IH [OF rest this] obtain d' where
      d': "p' = p1\<lparr>trailer_info := Present d'\<rparr>"
        "\<forall>k. k \<notin> dict_key ` fst ` set um \<longrightarrow> map_of d' k = map_of ?d1 k"
        "distinct (map fst ?d1) \<longrightarrow> distinct (map fst d')"
      by blast
    have "p' = p\<lparr>trailer_info := Present d'\<rparr>" using d'(1) p1_eq by simp
    moreover have "\<forall>k. k \<notin> dict_key ` fst ` set (entry # um) \<longrightarrow> map_of d' k = map_of d k"
      using d'(2) entry by (auto simp: update_conv')
    moreover have "distinct (map fst d) \<longrightarrow> distinct (map fst d')"
      using d'(3) by (simp add: distinct_update)
    ultimately show ?thesis by blast
  qed
qed

lemma read_existing_source:
  assumes "map_of (read_existing d acc) k = Some v"
  shows "map_of acc k = Some v \<or> (\<exists>obj. (k, obj) \<in> set d \<and> str_obj obj = Inr v)"
  using assms
proof (induction d arbitrary: acc)
  case Nil
  then show ?case by simp
next
  case (Cons entry d)
  obtain key obj where entry: "entry = (key, obj)" by (cases entry)
  show ?case
  proof (cases "str_obj obj")
    case (Inl e)
    with Cons.prems entry show ?thesis by simp
  next
    case (Inr s)
    with Cons.prems entry have "map_of (read_existing d (AList.update key s acc)) k = Some v"
      by simp
    from Cons.IH [OF this] show ?thesis
      using entry Inr by (auto simp: update_conv' split: if_splits)
  qed
qed

lemma read_existing_lookup:
  assumes "distinct (map fst d)" and "map_of (read_existing d []) k = Some v"
  shows "\<exists>obj. map_of d k = Some obj \<and> str_obj obj = Inr v"
  using read_existing_source [OF assms(2)] assms(1) by auto

lemma collect_fields_same_text:
  assumes "map_of d k = Some obj" and "str_obj obj = Inr v"
  shows "collect_fields (AList.update k (String v) d) acc = collect_fields d acc"
  using assms
proof (induction d arbitrary: acc)
  case Nil
  then show ?case by simp
next
  case (Cons entry d)
  obtain key obj' where entry: "entry = (key, obj')" by (cases entry)
  show ?case
  proof (cases "key = k")
    case True
    with Cons.prems entry show ?thesis by simp
  next
    case False
    with Cons.prems entry have "map_of d k = Some obj" by simp
    from Cons.IH [OF this Cons.prems(2)] show ?thesis
      using False entry by (simp split: sum.splits)
  qed
qed

lemma dict_key_ModDate: "dict_key k = ''/ModDate'' \<longleftrightarrow> k = ''/ModDate'' \<or> k = ''ModDate''"
  by (auto simp: dict_key_def startswith_def)

lemma update_body_saved:
  assumes opened: "pikepdf_open lib (file_content f) = Inr p"
    and info: "trailer_info p = Present d"
    and keys: "distinct (map fst d)"
    and saved: "update_body lib f um = Inr out"
  shows "\<exists>d'. pdf_save lib (p\<lparr>trailer_info := Present d'\<rparr>) = Inr out
           \<and> (\<forall>k. k \<notin> dict_key ` fst ` set um \<longrightarrow>
                 map_option str_obj (map_of d' k) = map_option str_obj (map_of d k)
                 \<and> (k \<noteq> ''/ModDate'' \<longrightarrow> map_of d' k = map_of d k))"
proof -
  let ?existing = "read_existing d []"
  from saved opened info obtain p2 p3 where
    p2: "write_updates um p = Inr p2"
    and p3: "preserve_moddate um ?existing p2 = Inr p3"
    and out: "pdf_save lib p3 = Inr out"
    by (auto simp: update_body_def and_then_def docinfo_Present split: sum.splits)
  from write_updates_Present [OF p2 info] obtain d2 where
    d2: "p2 = p\<lparr>trailer_info := Present d2\<rparr>"
      "\<forall>k. k \<notin> dict_key ` fst ` set um \<longrightarrow> map_of d2 k = map_of d k"
    by blast
  have info2: "trailer_info p2 = Present d2" using d2(1) by simp
  show ?thesis
  proof (cases "p3 = p2")
    case True
    with out d2 show ?thesis by auto
  next
    case False
    with p3 obtain v where
      absent: "''/ModDate'' \<notin> fst ` set um" "''ModDate'' \<notin> fst ` set um"
      and v: "map_of ?existing ''/ModDate'' = Some v"
      and set: "docinfo_setitem ''/ModDate'' v p2 = Inr p3"
      by (auto simp: preserve_moddate_def split: if_splits option.splits)
    let ?d3 = "AList.update ''/ModDate'' (String v) d2"
    from docinfo_setitem_Present [OF info2 set] d2(1)
    have p3_eq: "p3 = p\<lparr>trailer_info := Present ?d3\<rparr>" by simp
    from read_existing_lookup [OF keys v] obtain obj where
      obj: "map_of d ''/ModDate'' = Some obj" "str_obj obj = Inr v" by blast
    have untouched: "''/ModDate'' \<notin> dict_key ` fst ` set um"
    proof
      assume "''/ModDate'' \<in> dict_key ` fst ` set um"
      then obtain key where key: "key \<in> fst ` set um" "''/ModDate'' = dict_key key"
        by (rule imageE)
      from key(2) have "key = ''/ModDate'' \<or> key = ''ModDate''"
        using dict_key_ModDate [of key] by simp
      with key(1) absent show False by (force simp: image_iff)
    qed
    have "\<forall>k. k \<notin> dict_key ` fst ` set um \<longrightarrow>
            map_option str_obj (map_of ?d3 k) = map_option str_obj (map_of d k)
            \<and> (k \<noteq> ''/ModDate'' \<longrightarrow> map_of ?d3 k = map_of d k)"
      using d2(2) obj untouched by (simp add: update_conv')
    with out p3_eq show ?thesis by blast
  qed
qed

lemma write_updates_skips_empty:
  "write_updates um p = write_updates (filter (\<lambda>(key, v). v \<noteq> []) um) p"
  by (induction um arbitrary: p) (auto simp: and_then_def split: sum.splits)


subsection \<open>Updating: the claims\<close>

lemma update_pdf_metadata_Some:
  "update_pdf_metadata lib f um = Inr (events, Some out) \<Longrightarrow> update_body lib f um = Inr out"
  by (simp add: update_pdf_metadata_def split: sum.splits)

lemma faithful_reopen:
  "faithful lib \<Longrightarrow> pdf_save lib p = Inr out \<Longrightarrow>
     pikepdf_open lib out = Inr \<lparr>is_encrypted = False, trailer_info = trailer_info p\<rparr>"
  by (simp add: faithful_def)

text \<open>
  Claim C1: the document has a modification date and the request names it under neither key,
  \<open>ModDate\<close> or \<open>/ModDate\<close>. Then the bytes that \<open>update_pdf_metadata\<close> returns, opened again,
  hold a modification date with the text of the original one. The library is taken to save the
  dictionary it is handed (\<open>faithful\<close>): what the program adds is that it hands over the
  original value, writing it once more after the other fields.
\<close>

theorem update_keeps_moddate:
  assumes "faithful lib"
    and "pikepdf_open lib (file_content pdf_file) = Inr p"
    and "trailer_info p = Present d" and "distinct (map fst d)"
    and "map_of d ''/ModDate'' = Some obj"
    and "''ModDate'' \<notin> fst ` set updated_metadata"
    and "''/ModDate'' \<notin> fst ` set updated_metadata"
    and "update_pdf_metadata lib pdf_file updated_metadata = Inr (events, Some output_bytes)"
  shows "\<exists>p' d' obj'. pikepdf_open lib output_bytes = Inr p' \<and> trailer_info p' = Present d'
           \<and> map_of d' ''/ModDate'' = Some obj' \<and> str_obj obj' = str_obj obj"
proof -
  from update_body_saved [OF assms(2,3,4) update_pdf_metadata_Some [OF assms(8)]]
  obtain d' where
    saved: "pdf_save lib (p\<lparr>trailer_info := Present d'\<rparr>) = Inr output_bytes"
    and kept: "\<forall>k. k \<notin> dict_key ` fst ` set updated_metadata \<longrightarrow>
                 map_option str_obj (map_of d' k) = map_option str_obj (map_of d k)
                 \<and> (k \<noteq> ''/ModDate'' \<longrightarrow> map_of d' k = map_of d k)"
    by blast
  have "''/ModDate'' \<notin> dict_key ` fst ` set updated_metadata"
  proof
    assume "''/ModDate'' \<in> dict_key ` fst ` set updated_metadata"
    then obtain key where key: "key \<in> fst ` set updated_metadata" "''/ModDate'' = dict_key key"
      by (rule imageE)
    from key(2) have "key = ''/ModDate'' \<or> key = ''ModDate''"
      using dict_key_ModDate [of key] by simp
    with key(1) assms(6,7) show False by (force simp: image_iff)
  qed
  with kept assms(5) have "map_option str_obj (map_of d' ''/ModDate'') = Some (str_obj obj)"
    by simp
  then obtain obj' where "map_of d' ''/ModDate'' = Some obj'" "str_obj obj' = str_obj obj"
    by auto
  moreover from faithful_reopen [OF assms(1) saved]
  have "pikepdf_open lib output_bytes = Inr \<lparr>is_encrypted = False, trailer_info = Present d'\<rparr>"
    by simp
  ultimately show ?thesis by simp
qed

text \<open>
  Claim C3: a field of the original dictionary that the request does not name is in the written
  output with its text unchanged, and, the modification date apart, as the very same object. The
  names of the dictionary begin with \<open>/\<close> and the program puts a \<open>/\<close> before a request key that
  lacks one, so a request key names the field it is written to: \<open>Title\<close> and \<open>/Title\<close> both name
  \<open>/Title\<close>.
\<close>

theorem update_keeps_untouched_fields:
  assumes "faithful lib"
    and "pikepdf_open lib (file_content pdf_file) = Inr p"
    and "trailer_info p = Present d" and "distinct (map fst d)"
    and "update_pdf_metadata lib pdf_file updated_metadata = Inr (events, Some output_bytes)"
    and "k \<in> fst ` set d"
    and "k \<notin> dict_key ` fst ` set updated_metadata"
  shows "\<exists>p' d'. pikepdf_open lib output_bytes = Inr p' \<and> trailer_info p' = Present d'
           \<and> k \<in> fst ` set d'
           \<and> map_option str_obj (map_of d' k) = map_option str_obj (map_of d k)
           \<and> (k \<noteq> ''/ModDate'' \<longrightarrow> map_of d' k = map_of d k)"
proof -
  from update_body_saved [OF assms(2,3,4) update_pdf_metadata_Some [OF assms(5)]]
  obtain d' where
    saved: "pdf_save lib (p\<lparr>trailer_info := Present d'\<rparr>) = Inr output_bytes"
    and kept: "\<forall>k. k \<notin> dict_key ` fst ` set updated_metadata \<longrightarrow>
                 map_option str_obj (map_of d' k) = map_option str_obj (map_of d k)
                 \<and> (k \<noteq> ''/ModDate'' \<longrightarrow> map_of d' k = map_of d k)"
    by blast
  from kept assms(7) have k: "map_option str_obj (map_of d' k) = map_option str_obj (map_of d k)"
    "k \<noteq> ''/ModDate'' \<longrightarrow> map_of d' k = map_of d k" by simp_all
  from assms(6) have "map_of d k \<noteq> None" by (simp add: map_of_eq_None_iff)
  with k(1) have "map_of d' k \<noteq> None" by auto
  then have "k \<in> fst ` set d'" by (simp add: map_of_eq_None_iff)
  moreover from faithful_reopen [OF assms(1) saved]
  have "pikepdf_open lib output_bytes = Inr \<lparr>is_encrypted = False, trailer_info = Present d'\<rparr>"
    by simp
  ultimately show ?thesis using k by simp
qed

text \<open>
  Claim C7: a readable document without encryption is saved through \<open>update_pdf_metadata\<close> with
  the empty request; \<open>extract_metadata\<close> on the saved bytes returns what it returns on the
  original file.
\<close>

theorem roundtrip_empty_request:
  assumes "faithful lib"
    and "pikepdf_open lib (file_content pdf_file) = Inr p"
    and "\<not> is_encrypted p" and "one_entry_per_key p"
    and "update_pdf_metadata lib pdf_file [] = Inr (events, Some output_bytes)"
    and "file_content saved_file = output_bytes"
  shows "extract_metadata lib saved_file = extract_metadata lib pdf_file"
proof -
  note body = update_pdf_metadata_Some [OF assms(5)]
  show ?thesis
  proof (cases "trailer_info p")
    case Absent
    with body assms(2) have "pdf_save lib (p\<lparr>trailer_info := Present []\<rparr>) = Inr output_bytes"
      by (simp add: update_body_def and_then_def docinfo_def preserve_moddate_def)
    from faithful_reopen [OF assms(1) this] assms(2,3,6) Absent show ?thesis
      by (simp add: extract_metadata_def extract_body_def and_then_def docinfo_def)
  next
    case (Damaged e)
    with body assms(2) have "pdf_save lib p = Inr output_bytes"
      by (simp add: update_body_def and_then_def docinfo_def preserve_moddate_def)
    from faithful_reopen [OF assms(1) this] assms(2,3,6) Damaged show ?thesis
      by (simp add: extract_metadata_def extract_body_def and_then_def docinfo_def)
  next
    case (Present d)
    with assms(4) have keys: "distinct (map fst d)" by (simp add: one_entry_per_key_def)
    let ?existing = "read_existing d []"
    from body assms(2) Present obtain p3 where
      p3: "preserve_moddate [] ?existing p = Inr p3" and out: "pdf_save lib p3 = Inr output_bytes"
      by (auto simp: update_body_def and_then_def docinfo_Present split: sum.splits)
    have "\<exists>d'. trailer_info p3 = Present d' \<and> collect_fields d' [] = collect_fields d []"
    proof (cases "p3 = p")
      case True
      with Present show ?thesis by simp
    next
      case False
      with p3 obtain v where v: "map_of ?existing ''/ModDate'' = Some v"
        and written: "docinfo_setitem ''/ModDate'' v p = Inr p3"
        by (auto simp: preserve_moddate_def split: if_splits option.splits)
      from read_existing_lookup [OF keys v] obtain obj where
        obj: "map_of d ''/ModDate'' = Some obj" "str_obj obj = Inr v" by blast
      from docinfo_setitem_Present [OF Present written]
      have "trailer_info p3 = Present (AList.update ''/ModDate'' (String v) d)" by simp
      with collect_fields_same_text [OF obj] show ?thesis by simp
    qed
    then obtain d' where d': "trailer_info p3 = Present d'"
      "collect_fields d' [] = collect_fields d []" by blast
    from faithful_reopen [OF assms(1) out] assms(2,3,6) Present d' show ?thesis
      by (simp add: extract_metadata_def extract_body_def and_then_def docinfo_def)
  qed
qed

text \<open>
  Claim C10: the request maps \<open>ModDate\<close> or \<open>/ModDate\<close> to the empty string. Then
  \<open>update_pdf_metadata\<close> does exactly this: it opens the file, writes the entries of the request
  whose value is not empty, and saves. The empty entry is not written, and the step that writes
  the original modification date again does not run.
\<close>

theorem empty_moddate_neither_written_nor_reasserted:
  assumes "k = ''ModDate'' \<or> k = ''/ModDate''" and "(k, []) \<in> set updated_metadata"
  shows "update_pdf_metadata lib pdf_file updated_metadata =
           (case and_then (pikepdf_open lib (file_content pdf_file)) (\<lambda>pdf.
                   and_then (write_updates (filter (\<lambda>(key, v). v \<noteq> []) updated_metadata)
                               (case docinfo pdf of Inr (d, pdf') \<Rightarrow> pdf' | Inl e \<Rightarrow> pdf))
                            (pdf_save lib)) of
              Inr output_bytes \<Rightarrow> Inr ([], Some output_bytes)
            | Inl e \<Rightarrow> Inr ([st_error (''Failed to update metadata: '' @ error_text e)], None))"
proof -
  from assms have named:
    "''/ModDate'' \<in> fst ` set updated_metadata \<or> ''ModDate'' \<in> fst ` set updated_metadata"
    by (force simp: image_iff)
  have no_step: "preserve_moddate updated_metadata existing p = Inr p" for existing p
    using named unfolding preserve_moddate_def by (cases "''/ModDate'' \<in> fst ` set updated_metadata") simp_all
  have "update_body lib pdf_file updated_metadata =
          and_then (pikepdf_open lib (file_content pdf_file)) (\<lambda>pdf.
            and_then (write_updates (filter (\<lambda>(key, v). v \<noteq> []) updated_metadata)
                        (case docinfo pdf of Inr (d, pdf') \<Rightarrow> pdf' | Inl e \<Rightarrow> pdf))
                     (pdf_save lib))"
    unfolding update_body_def
    by (auto simp: and_then_def no_step write_updates_skips_empty [symmetric]
        split: sum.splits prod.splits)
  then show ?thesis by (simp add: update_pdf_metadata_def)
qed

lemmas run_defs = update_pdf_metadata_def update_body_def and_then_def docinfo_def
  docinfo_setitem_def dict_key_def startswith_def preserve_moddate_def plain_codec_def upload_def
  extract_metadata_def extract_body_def

theorem update_keeps_moddate_witness:
  "update_pdf_metadata plain_codec
     (upload \<lparr>is_encrypted = False, trailer_info = Present
        [(''/Title'', String ''Old''), (''/ModDate'', String ''D:20250101000000'')]\<rparr>)
     [(''Title'', ''New Title'')]
   = Inr ([], Some \<lparr>is_encrypted = False, trailer_info = Present
        [(''/Title'', String ''New Title''), (''/ModDate'', String ''D:20250101000000'')]\<rparr>)
   \<and> (\<exists>p' d' obj'.
         pikepdf_open plain_codec \<lparr>is_encrypted = False, trailer_info = Present
            [(''/Title'', String ''New Title''), (''/ModDate'', String ''D:20250101000000'')]\<rparr>
           = Inr p'
         \<and> trailer_info p' = Present d' \<and> map_of d' ''/ModDate'' = Some obj'
         \<and> str_obj obj' = str_obj (String ''D:20250101000000''))"
proof -
  let ?doc = "\<lparr>is_encrypted = False, trailer_info = Present
        [(''/Title'', String ''Old''), (''/ModDate'', String ''D:20250101000000'')]\<rparr>"
  let ?out = "\<lparr>is_encrypted = False, trailer_info = Present
        [(''/Title'', String ''New Title''), (''/ModDate'', String ''D:20250101000000'')]\<rparr>"
  have run: "update_pdf_metadata plain_codec (upload ?doc) [(''Title'', ''New Title'')]
      = Inr ([], Some ?out)"
    by (simp add: run_defs)
  have opened: "pikepdf_open plain_codec (file_content (upload ?doc)) = Inr ?doc"
    by (simp add: plain_codec_def upload_def)
  have info: "trailer_info ?doc = Present
        [(''/Title'', String ''Old''), (''/ModDate'', String ''D:20250101000000'')]"
    by simp
  have "\<exists>p' d' obj'. pikepdf_open plain_codec ?out = Inr p' \<and> trailer_info p' = Present d'
      \<and> map_of d' ''/ModDate'' = Some obj' \<and> str_obj obj' = str_obj (String ''D:20250101000000'')"
    by (rule update_keeps_moddate [OF faithful_plain_codec opened info _ _ _ _ run]) simp_all
  with run show ?thesis by blast
qed

theorem update_keeps_untouched_fields_witness:
  "update_pdf_metadata plain_codec
     (upload \<lparr>is_encrypted = False, trailer_info = Present
        [(''/Title'', String ''Old''), (''/Author'', String ''X'')]\<rparr>)
     [(''Title'', ''New Title'')]
   = Inr ([], Some \<lparr>is_encrypted = False, trailer_info = Present
        [(''/Title'', String ''New Title''), (''/Author'', String ''X'')]\<rparr>)
   \<and> (\<exists>p' d'.
         pikepdf_open plain_codec \<lparr>is_encrypted = False, trailer_info = Present
            [(''/Title'', String ''New Title''), (''/Author'', String ''X'')]\<rparr> = Inr p'
         \<and> trailer_info p' = Present d' \<and> ''/Author'' \<in> fst ` set d'
         \<and> map_option str_obj (map_of d' ''/Author'')
             = map_option str_obj (map_of [(''/Title'', String ''Old''), (''/Author'', String ''X'')]
                 ''/Author'')
         \<and> (''/Author'' \<noteq> ''/ModDate'' \<longrightarrow>
              map_of d' ''/Author''
                = map_of [(''/Title'', String ''Old''), (''/Author'', String ''X'')] ''/Author''))"
proof -
  let ?doc = "\<lparr>is_encrypted = False, trailer_info = Present
        [(''/Title'', String ''Old''), (''/Author'', String ''X'')]\<rparr>"
  let ?out = "\<lparr>is_encrypted = False, trailer_info = Present
        [(''/Title'', String ''New Title''), (''/Author'', String ''X'')]\<rparr>"
  have run: "update_pdf_metadata plain_codec (upload ?doc) [(''Title'', ''New Title'')]
      = Inr ([], Some ?out)"
    by (simp add: run_defs)
  have opened: "pikepdf_open plain_codec (file_content (upload ?doc)) = Inr ?doc"
    by (simp add: plain_codec_def upload_def)
  have info: "trailer_info ?doc = Present
        [(''/Title'', String ''Old''), (''/Author'', String ''X'')]"
    by simp
  have "\<exists>p' d'. pikepdf_open plain_codec ?out = Inr p' \<and> trailer_info p' = Present d'
      \<and> ''/Author'' \<in> fst ` set d'
      \<and> map_option str_obj (map_of d' ''/Author'')
          = map_option str_obj (map_of [(''/Title'', String ''Old''), (''/Author'', String ''X'')]
              ''/Author'')
      \<and> (''/Author'' \<noteq> ''/ModDate'' \<longrightarrow>
           map_of d' ''/Author''
             = map_of [(''/Title'', String ''Old''), (''/Author'', String ''X'')] ''/Author'')"
    by (rule update_keeps_untouched_fields [OF faithful_plain_codec opened info _ run])
      (simp_all add: dict_key_def startswith_def)
  with run show ?thesis by blast
qed

theorem roundtrip_empty_request_witness:
  "update_pdf_metadata plain_codec
     (upload \<lparr>is_encrypted = False, trailer_info = Present
        [(''/Title'', String ''Old''), (''/ModDate'', Other (Inr ''D:20250101000000''))]\<rparr>) []
   = Inr ([], Some \<lparr>is_encrypted = False, trailer_info = Present
        [(''/Title'', String ''Old''), (''/ModDate'', String ''D:20250101000000'')]\<rparr>)
   \<and> extract_metadata plain_codec
        (upload \<lparr>is_encrypted = False, trailer_info = Present
           [(''/Title'', String ''Old''), (''/ModDate'', String ''D:20250101000000'')]\<rparr>)
     = extract_metadata plain_codec
        (upload \<lparr>is_encrypted = False, trailer_info = Present
           [(''/Title'', String ''Old''), (''/ModDate'', Other (Inr ''D:20250101000000''))]\<rparr>)"
proof -
  let ?doc = "\<lparr>is_encrypted = False, trailer_info = Present
        [(''/Title'', String ''Old''), (''/ModDate'', Other (Inr ''D:20250101000000''))]\<rparr>"
  let ?out = "\<lparr>is_encrypted = False, trailer_info = Present
        [(''/Title'', String ''Old''), (''/ModDate'', String ''D:20250101000000'')]\<rparr>"
  have run: "update_pdf_metadata plain_codec (upload ?doc) [] = Inr ([], Some ?out)"
    by (simp add: run_defs)
  have opened: "pikepdf_open plain_codec (file_content (upload ?doc)) = Inr ?doc"
    by (simp add: plain_codec_def upload_def)
  have "extract_metadata plain_codec (upload ?out) = extract_metadata plain_codec (upload ?doc)"
    by (rule roundtrip_empty_request [OF faithful_plain_codec opened _ _ run])
      (simp_all add: one_entry_per_key_def upload_def)
  with run show ?thesis by blast
qed

theorem empty_moddate_neither_written_nor_reasserted_witness:
  "update_pdf_metadata plain_codec
     (upload \<lparr>is_encrypted = False, trailer_info = Present
        [(''/ModDate'', Other (Inr ''D:20250101000000''))]\<rparr>) [(''ModDate'', [])]
   = Inr ([], Some \<lparr>is_encrypted = False, trailer_info = Present
        [(''/ModDate'', Other (Inr ''D:20250101000000''))]\<rparr>)"
  using empty_moddate_neither_written_nor_reasserted [of "''ModDate''" "[(''ModDate'', [])]"
      plain_codec "upload \<lparr>is_encrypted = False, trailer_info = Present
        [(''/ModDate'', Other (Inr ''D:20250101000000''))]\<rparr>"]
  by (simp add: and_then_def docinfo_def plain_codec_def upload_def)

subsection \<open>The date normaliser on a valid string: reading the fields\<close>















subsection \<open>The date normaliser on a valid string: the date shown\<close>



lemma strftime_begins_with_date:
  "prefix (month_name (month dt) @ '' '' @ pad2 (day dt) @ '', '' @ show_nat (year dt) @ '' at '')
     (strftime dt tzname)"
  by (simp add: strftime_def long_date_def)



















end
